theory Spec2Isabelle
  imports Complex_Main
begin

section \<open>Hyperparameter grid search: \<open>pyswarms/utils/search/grid_search.py\<close>\<close>

text \<open>
  \<open>GridSearch.generate_grid\<close> reads the dictionary \<open>self.options\<close>. A Python dictionary
  keeps its keys in insertion order and holds every key once, so it is an association
  list here, and the theorems below assume that its keys are distinct. A value of the
  dictionary is either a list of candidates or anything else (a scalar).
\<close>

datatype py_error = IndexError

datatype 'a pyval = Scalar 'a | PyList "'a list"

text \<open>\<^verbatim>\<open>x if type(x) == list else [x]\<close>\<close>

fun listify :: "'a pyval \<Rightarrow> 'a list" where
  "listify (PyList xs) = xs"
| "listify (Scalar v) = [v]"

text \<open>
  \<^verbatim>\<open>zip(*self.options.items())\<close>: the items are pairs, so the transposition has two
  entries (the tuple of keys and the tuple of values) when there is at least one item, and
  no entry at all when there is none.
\<close>

definition zip_star :: "('k \<times> 'v) list \<Rightarrow> ('k list \<times> 'v list) option" where
  "zip_star its = (if its = [] then None else Some (map fst its, map snd its))"

text \<open>\<^verbatim>\<open>list(...)[1]\<close>: the second entry; on the empty list Python raises IndexError.\<close>

definition index1 :: "('k list \<times> 'v list) option \<Rightarrow> py_error + 'v list" where
  "index1 z = (case z of None \<Rightarrow> Inl IndexError | Some (ks, vs) \<Rightarrow> Inr vs)"

text \<open>
  \<^verbatim>\<open>itertools.product(*items)\<close>, as the Python library reference defines it:
  \<^verbatim>\<open>
  result = [[]]
  for pool in pools:
      result = [x+[y] for x in result for y in pool]
  \<close>
\<close>

definition product_step :: "'a list list \<Rightarrow> 'a list \<Rightarrow> 'a list list" where
  "product_step result pool = concat (map (\<lambda>x. map (\<lambda>y. x @ [y]) pool) result)"

definition itertools_product :: "'a list list \<Rightarrow> 'a list list" where
  "itertools_product pools = foldl product_step [[]] pools"

text \<open>
  \<^verbatim>\<open>dict(pairs)\<close>: the pairs are stored one after the other; storing under a key that
  is already there replaces its value and keeps its place.
\<close>

fun dict_setitem :: "('k \<times> 'v) list \<Rightarrow> 'k \<Rightarrow> 'v \<Rightarrow> ('k \<times> 'v) list" where
  "dict_setitem [] key v = [(key, v)]"
| "dict_setitem ((key', v') # d) key v =
     (if key' = key then (key', v) # d else (key', v') # dict_setitem d key v)"

definition py_dict :: "('k \<times> 'v) list \<Rightarrow> ('k \<times> 'v) list" where
  "py_dict pairs = foldl (\<lambda>d (key, v). dict_setitem d key v) [] pairs"

text \<open>
  \<^verbatim>\<open>
  def generate_grid(self):
      params = self.options.keys()
      items = [x if type(x) == list else [x]
               for x in list(zip(*self.options.items()))[1]]
      list_of_products = list(itertools.product(*items))
      return [dict(zip(*[params, list(x)])) for x in list_of_products]
  \<close>
\<close>

definition generate_grid :: "('k \<times> 'a pyval) list \<Rightarrow> py_error + ('k \<times> 'a) list list" where
  "generate_grid options =
     (let params = map fst options in
      case index1 (zip_star options) of
        Inl e \<Rightarrow> Inl e
      | Inr vals \<Rightarrow>
          (let items = map listify vals;
               list_of_products = itertools_product items
           in Inr (map (\<lambda>x. py_dict (zip params x)) list_of_products)))"

text \<open>The options of the module's docstring (lines 32 to 36).\<close>

definition docstring_options :: "(string \<times> int pyval) list" where
  "docstring_options =
     [(''c1'', PyList [1, 2, 3]),
      (''c2'', PyList [1, 2, 3]),
      (''w'', PyList [2, 3, 5]),
      (''k'', PyList [5, 10, 15]),
      (''p'', Scalar 1)]"

section \<open>Optimizer construction: the option validator\<close>

text \<open>
  The optimizer class that \<open>tests/optimizers/test_binary.py\<close> constructs
  (\<open>pyswarms.discrete.BinaryPSO\<close>) is not among the source files; what follows is the
  validator of the specification's sections 3, 4.1, 6 and 7. The tests expect KeyError
  where the specification says MissingOption, ValueError where it says InvalidParameter,
  and TypeError (not a tuple) or IndexError (a tuple of another size) where it says
  TypeMismatch.
\<close>

text \<open>Modelled from the spec: a value of the options mapping, which the optimizer's
  missing class reads. It is a number: an integer (k, p) or a real (c1, c2, w).\<close>

datatype pynum = PyInt int | PyFloat real

text \<open>Modelled from the spec: the number that a value of the options mapping stands for;
  section 3 compares p with 1 and 2. The optimizer's class is missing.\<close>

fun num_value :: "pynum \<Rightarrow> real" where
  "num_value (PyInt i) = real_of_int i"
| "num_value (PyFloat r) = r"

type_synonym hyperparameter_set = "string \<rightharpoonup> pynum"

text \<open>Modelled from the spec: the error taxonomy of section 7, raised by the missing
  constructor. MissingOption carries the key that is absent.\<close>

datatype error = MissingOption string | InvalidParameter | TypeMismatch

text \<open>Modelled from the spec: the velocity_clamp argument given to the missing
  constructor. It is a tuple of any size, another sequence (the list of
  \<open>test_vclamp_type_fail\<close>), or a number.\<close>

datatype pyobj = PyTuple "real list" | PySequence "real list" | PyNumber real

text \<open>Modelled from the spec: the five required keys of a HyperparameterSet (section 3),
  in the order in which the specification lists them. The class that checks them is
  missing.\<close>

definition required_keys :: "string list" where
  "required_keys = [''c1'', ''c2'', ''w'', ''k'', ''p'']"

text \<open>Modelled from the spec: check (a) of the missing OptionValidator (section 4.1): all
  five required keys present, else MissingOption identifying which key.\<close>

definition check_keys :: "hyperparameter_set \<Rightarrow> error + unit" where
  "check_keys options =
     (case filter (\<lambda>key. options key = None) required_keys of
        [] \<Rightarrow> Inr ()
      | key # _ \<Rightarrow> Inl (MissingOption key))"

text \<open>Modelled from the spec: check (b) of the missing OptionValidator: k is an integer
  with 0 < k \<le> n_particles, else InvalidParameter.\<close>

definition check_k :: "nat \<Rightarrow> hyperparameter_set \<Rightarrow> error + unit" where
  "check_k n_particles options =
     (case options ''k'' of
        None \<Rightarrow> Inl (MissingOption ''k'')
      | Some (PyInt kv) \<Rightarrow>
          if 0 < kv \<and> kv \<le> int n_particles then Inr () else Inl InvalidParameter
      | Some (PyFloat _) \<Rightarrow> Inl InvalidParameter)"

text \<open>Modelled from the spec: check (c) of the missing OptionValidator: p is 1 or 2, else
  InvalidParameter.\<close>

definition check_p :: "hyperparameter_set \<Rightarrow> error + unit" where
  "check_p options =
     (case options ''p'' of
        None \<Rightarrow> Inl (MissingOption ''p'')
      | Some pv \<Rightarrow>
          if num_value pv = 1 \<or> num_value pv = 2 then Inr () else Inl InvalidParameter)"

text \<open>Modelled from the spec: check (d) of the missing OptionValidator: the velocity
  clamp, if given, is a 2-element ordered pair, else TypeMismatch; its first entry is
  below its second, else InvalidParameter.\<close>

fun check_velocity_clamp :: "pyobj option \<Rightarrow> error + (real \<times> real) option" where
  "check_velocity_clamp None = Inr None"
| "check_velocity_clamp (Some (PyTuple [v_min, v_max])) =
     (if v_min < v_max then Inr (Some (v_min, v_max)) else Inl InvalidParameter)"
| "check_velocity_clamp (Some _) = Inl TypeMismatch"

text \<open>Modelled from the spec: the missing OptionValidator (section 4.1), which raises on
  the first violated check, in the order (a), (b), (c), (d).\<close>

definition option_validator ::
  "hyperparameter_set \<Rightarrow> nat \<Rightarrow> pyobj option \<Rightarrow> error + (real \<times> real) option" where
  "option_validator options n_particles velocity_clamp =
     (case check_keys options of
        Inl e \<Rightarrow> Inl e
      | Inr _ \<Rightarrow>
          (case check_k n_particles options of
             Inl e \<Rightarrow> Inl e
           | Inr _ \<Rightarrow>
               (case check_p options of
                  Inl e \<Rightarrow> Inl e
                | Inr _ \<Rightarrow> check_velocity_clamp velocity_clamp)))"

text \<open>Modelled from the spec: the instance that the missing constructor produces, as far
  as its arguments determine it. The swarm arrays allocated after the validation are
  drawn at random and are left out.\<close>

record optimizer =
  opt_n_particles :: nat
  opt_dimensions :: nat
  opt_options :: hyperparameter_set
  opt_velocity_clamp :: "(real \<times> real) option"

text \<open>Modelled from the spec: the missing constructor (section 6), which runs the
  OptionValidator before it allocates anything. The binary optimizer of the tests takes
  no bounds.\<close>

definition construct_optimizer ::
  "nat \<Rightarrow> nat \<Rightarrow> hyperparameter_set \<Rightarrow> pyobj option \<Rightarrow> error + optimizer" where
  "construct_optimizer n_particles dimensions options velocity_clamp =
     (case option_validator options n_particles velocity_clamp of
        Inl e \<Rightarrow> Inl e
      | Inr clamp \<Rightarrow>
          Inr \<lparr>opt_n_particles = n_particles, opt_dimensions = dimensions,
               opt_options = options, opt_velocity_clamp = clamp\<rparr>)"

text \<open>The options of the fixture of \<open>test_binary.py\<close> (line 27).\<close>

definition fixture_options :: hyperparameter_set where
  "fixture_options =
     [''c1'' \<mapsto> PyFloat 0.5, ''c2'' \<mapsto> PyFloat 0.7, ''w'' \<mapsto> PyFloat 0.5,
      ''k'' \<mapsto> PyInt 2, ''p'' \<mapsto> PyInt 2]"

section \<open>The grid is the cartesian product\<close>

lemma append_snoc_fun: "(@) (a @ [x]) = (\<lambda>t. a @ x # t)"
  by (rule ext) simp

lemma append_Nil_fun: "(@) [] = (\<lambda>x. x)"
  by (rule ext) simp

lemma product_step_foldl:
  "foldl product_step acc pools =
     concat (map (\<lambda>a. map ((@) a) (product_lists pools)) acc)"
proof (induction pools arbitrary: acc)
  case Nil
  then show ?case by (simp add: map_idI)
next
  case (Cons pool pools)
  have "foldl product_step acc (pool # pools) = foldl product_step (product_step acc pool) pools"
    by simp
  also have "\<dots> = concat (map (\<lambda>a. map ((@) a) (product_lists pools)) (product_step acc pool))"
    by (rule Cons.IH)
  also have "\<dots> = concat (map (\<lambda>a. map ((@) a) (product_lists (pool # pools))) acc)"
    by (induction acc) (simp_all add: product_step_def map_concat comp_def append_snoc_fun)
  finally show ?case .
qed

lemma itertools_product_eq: "itertools_product pools = product_lists pools"
  by (simp add: itertools_product_def product_step_foldl append_Nil_fun)

lemma dict_setitem_fresh:
  "key \<notin> fst ` set d \<Longrightarrow> dict_setitem d key v = d @ [(key, v)]"
  by (induction d) auto

lemma py_dict_foldl:
  "distinct (map fst (d @ pairs)) \<Longrightarrow>
   foldl (\<lambda>d (key, v). dict_setitem d key v) d pairs = d @ pairs"
proof (induction pairs arbitrary: d)
  case Nil
  then show ?case by simp
next
  case (Cons kv pairs)
  obtain key v where kv: "kv = (key, v)" by (cases kv)
  from Cons.prems kv have fresh: "key \<notin> fst ` set d" by auto
  from Cons.prems kv have "distinct (map fst ((d @ [(key, v)]) @ pairs))" by simp
  from Cons.IH [OF this] show ?case by (simp add: kv dict_setitem_fresh [OF fresh])
qed

lemma py_dict_distinct: "distinct (map fst pairs) \<Longrightarrow> py_dict pairs = pairs"
  using py_dict_foldl [of "[]" pairs] by (simp add: py_dict_def)

lemma zip_in_product_distinct:
  assumes "distinct ks" "x \<in> set (product_lists cs)"
  shows "py_dict (zip ks x) = zip ks x"
proof -
  have "map fst (zip ks x) = take (length x) ks"
    by (simp add: map_fst_zip_take min_def take_all)
  with assms(1) show ?thesis by (simp add: py_dict_distinct)
qed

lemma generate_grid_product:
  assumes "options \<noteq> []" "distinct (map fst options)"
  shows "generate_grid options =
           Inr (map (zip (map fst options)) (product_lists (map (listify \<circ> snd) options)))"
  using assms
  by (simp add: generate_grid_def zip_star_def index1_def itertools_product_eq
        zip_in_product_distinct cong: map_cong)

lemma grid_set:
  assumes "length ks = length cs"
  shows "set (map (zip ks) (product_lists cs)) =
           {d. map fst d = ks \<and> list_all2 (\<lambda>v c. v \<in> set c) (map snd d) cs}"
proof (intro set_eqI iffI)
  fix d assume "d \<in> set (map (zip ks) (product_lists cs))"
  then obtain t where t: "t \<in> set (product_lists cs)" and d: "d = zip ks t" by auto
  from t have len: "length t = length cs" by (rule in_set_product_lists_length)
  from t have "list_all2 (\<lambda>v c. v \<in> set c) t cs" by (simp add: product_lists_set)
  with len assms d show "d \<in> {d. map fst d = ks \<and> list_all2 (\<lambda>v c. v \<in> set c) (map snd d) cs}"
    by simp
next
  fix d assume "d \<in> {d. map fst d = ks \<and> list_all2 (\<lambda>v c. v \<in> set c) (map snd d) cs}"
  then have k: "map fst d = ks" and a: "list_all2 (\<lambda>v c. v \<in> set c) (map snd d) cs" by simp_all
  from a have "map snd d \<in> set (product_lists cs)" by (simp add: product_lists_set)
  moreover have "zip ks (map snd d) = d" unfolding k [symmetric] by (rule zip_map_fst_snd)
  ultimately show "d \<in> set (map (zip ks) (product_lists cs))" by force
qed

lemma zip_keys_inj:
  assumes "length a = length ks" "length b = length ks" "zip ks a = zip ks b"
  shows "a = b"
proof -
  have "a = map snd (zip ks a)" using assms(1) by (simp add: map_snd_zip)
  also have "\<dots> = map snd (zip ks b)" by (simp only: assms(3))
  also have "\<dots> = b" using assms(2) by (simp add: map_snd_zip)
  finally show ?thesis .
qed

lemma grid_distinct:
  assumes "length ks = length cs" "\<forall>c \<in> set cs. distinct c"
  shows "distinct (map (zip ks) (product_lists cs))"
proof -
  have "inj_on (zip ks) (set (product_lists cs))"
  proof (rule inj_onI)
    fix a b
    assume A: "a \<in> set (product_lists cs)" and B: "b \<in> set (product_lists cs)"
      and Z: "zip ks a = zip ks b"
    have la: "length a = length ks"
      using in_set_product_lists_length [OF A] assms(1) by simp
    have lb: "length b = length ks"
      using in_set_product_lists_length [OF B] assms(1) by simp
    show "a = b" by (rule zip_keys_inj [OF la lb Z])
  qed
  moreover have "distinct (product_lists cs)"
    by (rule distinct_product_lists [OF assms(2)])
  ultimately show ?thesis by (simp only: distinct_map simp_thms)
qed

lemma length_product_lists_prod:
  "length (product_lists cs) = prod_list (map length cs)"
  by (simp only: length_product_lists prod_list.eq_foldr)

subsection \<open>The order of the grid\<close>

lemma product_lists_positions:
  "product_lists cs =
     map (\<lambda>t. map2 (\<lambda>c i. c ! i) cs t) (product_lists (map (\<lambda>c. [0..<length c]) cs))"
proof (induction cs)
  case Nil
  then show ?case by simp
next
  case (Cons c cs)
  let ?P = "product_lists (map (\<lambda>c. [0..<length c]) cs)"
  let ?g = "\<lambda>t. map2 (\<lambda>c i. c ! i) cs t"
  have "product_lists (c # cs) = concat (map (\<lambda>x. map ((#) x) (product_lists cs)) c)"
    by simp
  also have "\<dots> = concat (map (\<lambda>i. map ((#) (c ! i)) (product_lists cs)) [0..<length c])"
    (is "_ = ?M")
    using arg_cong [OF map_nth [of c], of "\<lambda>l. concat (map (\<lambda>x. map ((#) x) (product_lists cs)) l)"]
    by (simp add: comp_def)
  also have "?M = concat (map (\<lambda>i. map ((#) (c ! i)) (map ?g ?P)) [0..<length c])"
    using Cons.IH by simp
  also have "\<dots> = map (\<lambda>t. map2 (\<lambda>c i. c ! i) (c # cs) t)
                      (concat (map (\<lambda>i. map ((#) i) ?P) [0..<length c]))"
    by (simp add: map_concat comp_def)
  also have "\<dots> = map (\<lambda>t. map2 (\<lambda>c i. c ! i) (c # cs) t)
                      (product_lists (map (\<lambda>c. [0..<length c]) (c # cs)))"
    by simp
  finally show ?case .
qed

lemma sorted_blocks:
  assumes "sorted_wrt (<) (pool :: nat list)" "sorted_wrt ord_class.lexordp ts"
  shows "sorted_wrt ord_class.lexordp (concat (map (\<lambda>x. map ((#) x) ts) pool))"
  using assms(1)
proof (induction pool)
  case Nil
  show ?case by simp
next
  case (Cons x pool)
  have sp: "sorted_wrt (<) pool" and lt: "\<forall>y \<in> set pool. x < y"
    using Cons.prems by simp_all
  have head: "sorted_wrt ord_class.lexordp (map ((#) x) ts)"
    using assms(2) by (simp add: sorted_wrt_map)
  have rest: "sorted_wrt ord_class.lexordp (concat (map (\<lambda>x. map ((#) x) ts) pool))"
    using sp by (rule Cons.IH)
  have cross: "ord_class.lexordp a b"
    if "a \<in> set (map ((#) x) ts)" "b \<in> set (concat (map (\<lambda>x. map ((#) x) ts) pool))" for a b
  proof -
    from that(1) obtain t where a: "a = x # t" by auto
    from that(2) obtain y t' where b: "b = y # t'" and y: "y \<in> set pool" by auto
    from lt y have "x < y" by (rule bspec)
    then show ?thesis unfolding a b by simp
  qed
  have "sorted_wrt ord_class.lexordp
          (map ((#) x) ts @ concat (map (\<lambda>x. map ((#) x) ts) pool))"
    unfolding sorted_wrt_append
  proof (intro conjI ballI)
    show "sorted_wrt ord_class.lexordp (map ((#) x) ts)" by (rule head)
    show "sorted_wrt ord_class.lexordp (concat (map (\<lambda>x. map ((#) x) ts) pool))" by (rule rest)
    fix a b
    assume "a \<in> set (map ((#) x) ts)" "b \<in> set (concat (map (\<lambda>x. map ((#) x) ts) pool))"
    then show "ord_class.lexordp a b" by (rule cross)
  qed
  then show ?case by (simp only: list.map concat.simps)
qed

lemma sorted_product_lists:
  assumes "\<forall>pool \<in> set pools. sorted_wrt (<) (pool :: nat list)"
  shows "sorted_wrt ord_class.lexordp (product_lists pools)"
  using assms
proof (induction pools)
  case Nil
  show ?case by simp
next
  case (Cons pool pools)
  have 1: "sorted_wrt (<) pool" using Cons.prems by simp
  have 2: "sorted_wrt ord_class.lexordp (product_lists pools)" using Cons by simp
  show ?case unfolding product_lists.simps by (rule sorted_blocks [OF 1 2])
qed

lemma sorted_positions:
  "sorted_wrt ord_class.lexordp (product_lists (map (\<lambda>c. [0..<length c]) cs))"
proof (rule sorted_product_lists, rule ballI)
  fix pool :: "nat list"
  assume "pool \<in> set (map (\<lambda>c. [0..<length c]) cs)"
  then show "sorted_wrt (<) pool" by auto
qed

lemma set_positions:
  "set (product_lists (map (\<lambda>c. [0..<length c]) cs)) =
     {t. list_all2 (\<lambda>i c. i < length c) t cs}"
  unfolding product_lists_set list_all2_map2 by simp

section \<open>Theorems about \<open>generate_grid\<close>\<close>

text \<open>
  C1, as amended. For every options dictionary that is not empty, in which each key maps to
  a scalar or to a list of candidates, \<open>generate_grid\<close> returns a list with one dictionary
  per combination (its length is the product of the numbers of candidates, a scalar
  counting as one candidate); the dictionaries returned are exactly those that bind the
  keys of the options, in their order, each to one of its candidates; and no dictionary
  is returned twice when no candidate list repeats a value.
\<close>

theorem generate_grid_cartesian:
  assumes "options \<noteq> []" and "distinct (map fst options)"
  shows "\<exists>grid. generate_grid options = Inr grid
           \<and> length grid = prod_list (map (\<lambda>kv. length (listify (snd kv))) options)
           \<and> set grid = {d. map fst d = map fst options
                            \<and> list_all2 (\<lambda>v x. v \<in> set (listify x)) (map snd d) (map snd options)}
           \<and> ((\<forall>x \<in> set (map snd options). distinct (listify x)) \<longrightarrow> distinct grid)"
proof -
  let ?ks = "map fst options"
  let ?cs = "map (listify \<circ> snd) options"
  let ?grid = "map (zip ?ks) (product_lists ?cs)"
  have len: "length ?ks = length ?cs" by simp
  have 1: "generate_grid options = Inr ?grid"
    by (rule generate_grid_product [OF assms])
  have 2: "length ?grid = prod_list (map (\<lambda>kv. length (listify (snd kv))) options)"
    by (simp add: length_product_lists_prod comp_def)
  have 3: "set ?grid = {d. map fst d = map fst options
             \<and> list_all2 (\<lambda>v x. v \<in> set (listify x)) (map snd d) (map snd options)}"
    unfolding grid_set [OF len] by (simp add: list_all2_map2)
  have 4: "(\<forall>x \<in> set (map snd options). distinct (listify x)) \<longrightarrow> distinct ?grid"
  proof
    assume "\<forall>x \<in> set (map snd options). distinct (listify x)"
    then have "\<forall>c \<in> set ?cs. distinct c" by simp
    then show "distinct ?grid" by (rule grid_distinct [OF len])
  qed
  from 1 2 3 4 show ?thesis by blast
qed

text \<open>The theorem at the options \<open>{'c1': [1, 2], 'p': 1}\<close>.\<close>

theorem generate_grid_cartesian_witness:
  "\<exists>grid. generate_grid [(''c1'', PyList [1::int, 2]), (''p'', Scalar 1)] = Inr grid
      \<and> length grid = 2 \<and> distinct grid"
proof -
  have "\<exists>grid. generate_grid [(''c1'', PyList [1::int, 2]), (''p'', Scalar 1)] = Inr grid
      \<and> length grid = prod_list (map (\<lambda>kv. length (listify (snd kv)))
                          [(''c1'', PyList [1::int, 2]), (''p'', Scalar 1)])
      \<and> set grid = {d. map fst d = map fst [(''c1'', PyList [1::int, 2]), (''p'', Scalar 1)]
            \<and> list_all2 (\<lambda>v x. v \<in> set (listify x)) (map snd d)
                 (map snd [(''c1'', PyList [1::int, 2]), (''p'', Scalar 1)])}
      \<and> ((\<forall>x \<in> set (map snd [(''c1'', PyList [1::int, 2]), (''p'', Scalar 1)]).
              distinct (listify x)) \<longrightarrow> distinct grid)"
    by (rule generate_grid_cartesian) simp_all
  then obtain grid where
    g: "generate_grid [(''c1'', PyList [1::int, 2]), (''p'', Scalar 1)] = Inr grid"
    and l: "length grid = prod_list (map (\<lambda>kv. length (listify (snd kv)))
                          [(''c1'', PyList [1::int, 2]), (''p'', Scalar 1)])"
    and d: "(\<forall>x \<in> set (map snd [(''c1'', PyList [1::int, 2]), (''p'', Scalar 1)]).
              distinct (listify x)) \<longrightarrow> distinct grid"
    by blast
  from l have "length grid = 2" by simp
  moreover from d have "distinct grid" by simp
  ultimately show ?thesis using g by blast
qed

text \<open>
  C1 as it is stated covers the empty dictionary, which satisfies its condition on the
  keys; there \<open>generate_grid\<close> returns no grid.
\<close>

theorem generate_grid_empty_options_counterexample:
  "generate_grid ([] :: (string \<times> int pyval) list) = Inl IndexError"
  by (simp add: generate_grid_def zip_star_def index1_def)

text \<open>
  C2. The list that \<open>generate_grid\<close> returns is in lexicographic product order, the first
  key varying slowest and the last key fastest: reading each dictionary as the tuple of
  the positions of its values in the candidate lists (in the order of the keys), the
  grid lists every tuple of positions once, in strictly increasing lexicographic order.
\<close>

theorem generate_grid_lexicographic:
  assumes "options \<noteq> []" and "distinct (map fst options)"
  shows "\<exists>ts. generate_grid options =
                Inr (map (\<lambda>t. zip (map fst options)
                               (map2 (\<lambda>c i. c ! i) (map (listify \<circ> snd) options) t)) ts)
           \<and> set ts = {t. list_all2 (\<lambda>i c. i < length c) t (map (listify \<circ> snd) options)}
           \<and> sorted_wrt ord_class.lexordp ts"
proof -
  let ?ks = "map fst options"
  let ?cs = "map (listify \<circ> snd) options"
  let ?ts = "product_lists (map (\<lambda>c. [0..<length c]) ?cs)"
  have "generate_grid options = Inr (map (zip ?ks) (product_lists ?cs))"
    by (rule generate_grid_product [OF assms])
  also have "product_lists ?cs = map (\<lambda>t. map2 (\<lambda>c i. c ! i) ?cs t) ?ts"
    by (rule product_lists_positions)
  finally have 1: "generate_grid options =
      Inr (map (\<lambda>t. zip ?ks (map2 (\<lambda>c i. c ! i) ?cs t)) ?ts)"
    by (simp only: map_map comp_def)
  have 2: "set ?ts = {t. list_all2 (\<lambda>i c. i < length c) t ?cs}"
    by (rule set_positions)
  have 3: "sorted_wrt ord_class.lexordp ?ts"
    by (rule sorted_positions)
  from 1 2 3 show ?thesis by blast
qed

text \<open>The theorem at the options \<open>{'c1': [1, 2], 'p': 1}\<close>.\<close>

theorem generate_grid_lexicographic_witness:
  "\<exists>ts. generate_grid [(''c1'', PyList [1::int, 2]), (''p'', Scalar 1)] =
                Inr (map (\<lambda>t. zip (map fst [(''c1'', PyList [1::int, 2]), (''p'', Scalar 1)])
                               (map2 (\<lambda>c i. c ! i)
                                 (map (listify \<circ> snd) [(''c1'', PyList [1::int, 2]), (''p'', Scalar 1)]) t)) ts)
           \<and> set ts = {t. list_all2 (\<lambda>i c. i < length c) t
                            (map (listify \<circ> snd) [(''c1'', PyList [1::int, 2]), (''p'', Scalar 1)])}
           \<and> sorted_wrt ord_class.lexordp ts"
  by (rule generate_grid_lexicographic) simp_all

text \<open>
  C3. With the options of the docstring, \<open>generate_grid\<close> returns 81 dictionaries, no two
  of them equal, and they are exactly the dictionaries that bind c1, c2, w, k and p, in
  this order, each to one of its candidates: the 81 combinations. Each has the five
  keys, and p is 1 in each.
\<close>

theorem generate_grid_docstring:
  "\<exists>grid. generate_grid docstring_options = Inr grid
      \<and> length grid = 81
      \<and> distinct grid
      \<and> set grid = {d. map fst d = [''c1'', ''c2'', ''w'', ''k'', ''p'']
                       \<and> list_all2 (\<lambda>v c. v \<in> set c) (map snd d)
                            [[1, 2, 3], [1, 2, 3], [2, 3, 5], [5, 10, 15], [1]]}
      \<and> list_all (\<lambda>d. map fst d = [''c1'', ''c2'', ''w'', ''k'', ''p'']
                          \<and> map_of d ''p'' = Some 1) grid"
proof -
  let ?ks = "map fst docstring_options"
  let ?cs = "map (listify \<circ> snd) docstring_options"
  let ?grid = "map (zip ?ks) (product_lists ?cs)"
  have ks: "?ks = [''c1'', ''c2'', ''w'', ''k'', ''p'']"
    by (simp add: docstring_options_def)
  have cs: "?cs = [[1, 2, 3], [1, 2, 3], [2, 3, 5], [5, 10, 15], [1]]"
    by (simp add: docstring_options_def)
  have len: "length ?ks = length ?cs" by simp
  have 1: "generate_grid docstring_options = Inr ?grid"
    by (rule generate_grid_product) (simp_all add: docstring_options_def)
  have 2: "length ?grid = 81"
    unfolding length_map length_product_lists_prod cs by simp
  have "\<forall>c \<in> set ?cs. distinct c" unfolding cs by simp
  then have 3: "distinct ?grid" by (rule grid_distinct [OF len])
  have 4: "set ?grid = {d. map fst d = [''c1'', ''c2'', ''w'', ''k'', ''p'']
                       \<and> list_all2 (\<lambda>v c. v \<in> set c) (map snd d)
                            [[1, 2, 3], [1, 2, 3], [2, 3, 5], [5, 10, 15], [1]]}"
    using grid_set [OF len] unfolding ks cs .
  have 5: "list_all (\<lambda>d. map fst d = [''c1'', ''c2'', ''w'', ''k'', ''p'']
                          \<and> map_of d ''p'' = Some 1) ?grid"
    unfolding list_all_iff
  proof
    fix d assume "d \<in> set ?grid"
    then have "d \<in> {d. map fst d = [''c1'', ''c2'', ''w'', ''k'', ''p'']
                       \<and> list_all2 (\<lambda>v c. v \<in> set c) (map snd d)
                            [[1, 2, 3], [1, 2, 3], [2, 3, 5], [5, 10, 15], [1]]}"
      by (simp only: 4)
    then have k: "map fst d = [''c1'', ''c2'', ''w'', ''k'', ''p'']"
      and v: "list_all2 (\<lambda>v c. v \<in> set c) (map snd d) [[1, 2, 3], [1, 2, 3], [2, 3, 5], [5, 10, 15], [1]]"
      by simp_all
    from v obtain a b c e where "map snd d = [a, b, c, e, 1]"
      by (auto simp: list_all2_Cons2)
    with k have "d = zip [''c1'', ''c2'', ''w'', ''k'', ''p''] [a, b, c, e, 1]"
      by (metis zip_map_fst_snd)
    then show "map fst d = [''c1'', ''c2'', ''w'', ''k'', ''p''] \<and> map_of d ''p'' = Some 1"
      by simp
  qed
  from 1 2 3 4 5 show ?thesis by blast
qed

text \<open>
  C10. On the empty options dictionary \<open>generate_grid\<close> raises IndexError; it does not
  return the grid whose one entry is the empty dictionary. It returns a grid exactly on
  the options dictionaries that are not empty.
\<close>

theorem generate_grid_empty_fails:
  "generate_grid [] = Inl IndexError
   \<and> generate_grid [] \<noteq> Inr [[]]
   \<and> ((\<exists>grid. generate_grid options = Inr grid) = (options \<noteq> []))"
  by (cases options) (simp_all add: generate_grid_def zip_star_def index1_def)

section \<open>Theorems about the option validator\<close>

lemma check_keys_missing:
  assumes "key \<in> set required_keys" "options key = None"
  shows "\<exists>missing. check_keys options = Inl (MissingOption missing)
           \<and> missing \<in> set required_keys \<and> options missing = None"
proof -
  let ?ms = "filter (\<lambda>key. options key = None) required_keys"
  from assms have "key \<in> set ?ms" by simp
  then obtain m rest where ms: "?ms = m # rest" by (cases ?ms) auto
  then have "m \<in> set ?ms" by simp
  then have "m \<in> set required_keys" "options m = None" by simp_all
  moreover have "check_keys options = Inl (MissingOption m)"
    by (simp add: check_keys_def ms)
  ultimately show ?thesis by blast
qed


text \<open>
  C4. For every options mapping from which one of the five required keys (c1, c2, w, k,
  p) is absent, construction fails with MissingOption, whatever the other arguments are;
  the key that the error carries is a required key that is absent from the mapping; no
  instance is produced.
\<close>

theorem missing_option_fails:
  assumes "key \<in> set required_keys" and "options key = None"
  shows "\<exists>missing. construct_optimizer n_particles dimensions options velocity_clamp
                      = Inl (MissingOption missing)
           \<and> missing \<in> set required_keys \<and> options missing = None"
proof -
  from check_keys_missing [of key options, OF assms] obtain missing where
    "check_keys options = Inl (MissingOption missing)"
    "missing \<in> set required_keys" "options missing = None" by blast
  then show ?thesis
    by (auto simp: construct_optimizer_def option_validator_def)
qed

text \<open>The theorem at \<open>check_c1\<close> of \<open>test_keyword_check_fail\<close>: c1 is the absent key.\<close>

theorem missing_option_fails_witness:
  "construct_optimizer 5 2
     [''c2'' \<mapsto> PyFloat 0.7, ''w'' \<mapsto> PyFloat 0.5, ''k'' \<mapsto> PyInt 2, ''p'' \<mapsto> PyInt 2] None
   = Inl (MissingOption ''c1'')"
  using missing_option_fails [of "''c1''"
     "[''c2'' \<mapsto> PyFloat 0.7, ''w'' \<mapsto> PyFloat 0.5, ''k'' \<mapsto> PyInt 2, ''p'' \<mapsto> PyInt 2]" 5 2 None]
  by (auto simp: required_keys_def split: if_splits)




lemma construct_without_clamp:
  assumes "construct_optimizer n_particles dimensions options None = Inr inst"
  shows "construct_optimizer n_particles dimensions options velocity_clamp
           = (case check_velocity_clamp velocity_clamp of
                Inl e \<Rightarrow> Inl e
              | Inr clamp \<Rightarrow>
                  Inr \<lparr>opt_n_particles = n_particles, opt_dimensions = dimensions,
                       opt_options = options, opt_velocity_clamp = clamp\<rparr>)"
  using assms
  by (simp add: construct_optimizer_def option_validator_def split: sum.splits)

lemma check_velocity_clamp_not_pair:
  assumes "\<not> (\<exists>v_min v_max. clamp = PyTuple [v_min, v_max])"
  shows "check_velocity_clamp (Some clamp) = Inl TypeMismatch"
  using assms by (cases "(Some clamp)" rule: check_velocity_clamp.cases) simp_all

text \<open>
  C6. With options that pass the checks on the hyperparameters, for every velocity
  clamp argument: if it is not a tuple of two entries, construction fails with
  TypeMismatch; if it is a pair (v_min, v_max) with v_min \<ge> v_max, construction fails
  with InvalidParameter; construction succeeds exactly when it is a pair with
  v_min < v_max.
\<close>

theorem velocity_clamp_check:
  assumes "construct_optimizer n_particles dimensions options None = Inr inst"
  shows "(\<not> (\<exists>v_min v_max. clamp = PyTuple [v_min, v_max])
            \<longrightarrow> construct_optimizer n_particles dimensions options (Some clamp) = Inl TypeMismatch)
       \<and> (\<forall>v_min v_max. clamp = PyTuple [v_min, v_max] \<and> v_min \<ge> v_max
            \<longrightarrow> construct_optimizer n_particles dimensions options (Some clamp)
                  = Inl InvalidParameter)
       \<and> ((\<exists>inst'. construct_optimizer n_particles dimensions options (Some clamp) = Inr inst')
            = (\<exists>v_min v_max. clamp = PyTuple [v_min, v_max] \<and> v_min < v_max))"
proof (intro conjI impI allI)
  assume "\<not> (\<exists>v_min v_max. clamp = PyTuple [v_min, v_max])"
  then show "construct_optimizer n_particles dimensions options (Some clamp) = Inl TypeMismatch"
    by (simp add: construct_without_clamp [OF assms] check_velocity_clamp_not_pair)
next
  fix v_min v_max
  assume "clamp = PyTuple [v_min, v_max] \<and> v_min \<ge> v_max"
  then show "construct_optimizer n_particles dimensions options (Some clamp) = Inl InvalidParameter"
    by (simp add: construct_without_clamp [OF assms])
next
  show "(\<exists>inst'. construct_optimizer n_particles dimensions options (Some clamp) = Inr inst')
            = (\<exists>v_min v_max. clamp = PyTuple [v_min, v_max] \<and> v_min < v_max)"
  proof (cases "\<exists>v_min v_max. clamp = PyTuple [v_min, v_max]")
    case True
    then obtain v_min v_max where "clamp = PyTuple [v_min, v_max]" by blast
    then show ?thesis by (simp add: construct_without_clamp [OF assms])
  next
    case False
    then show ?thesis
      by (simp add: construct_without_clamp [OF assms] check_velocity_clamp_not_pair)
  qed
qed

text \<open>
  The theorem at the clamps of \<open>test_vclamp_type_fail\<close> (the list [1, 3]), of
  \<open>test_vclamp_shape_fail\<close> (the tuple (1, 1, 1)), of \<open>test_vclamp_minmax_fail\<close> (the
  tuple (3, 2)), and at the tuple (1, 3).
\<close>

theorem velocity_clamp_check_witness:
  "construct_optimizer 5 2 fixture_options (Some (PySequence [1, 3])) = Inl TypeMismatch
   \<and> construct_optimizer 5 2 fixture_options (Some (PyTuple [1, 1, 1])) = Inl TypeMismatch
   \<and> construct_optimizer 5 2 fixture_options (Some (PyTuple [3, 2])) = Inl InvalidParameter
   \<and> (\<exists>inst'. construct_optimizer 5 2 fixture_options (Some (PyTuple [1, 3])) = Inr inst')"
proof -
  have ok: "construct_optimizer 5 2 fixture_options None
       = Inr \<lparr>opt_n_particles = 5, opt_dimensions = 2,
              opt_options = fixture_options, opt_velocity_clamp = None\<rparr>"
    by (simp add: construct_optimizer_def option_validator_def check_keys_def check_k_def
          check_p_def required_keys_def fixture_options_def)
  have 1: "construct_optimizer 5 2 fixture_options (Some (PySequence [1, 3])) = Inl TypeMismatch"
    using velocity_clamp_check [OF ok, of "PySequence [1, 3]"] by simp
  have 2: "construct_optimizer 5 2 fixture_options (Some (PyTuple [1, 1, 1])) = Inl TypeMismatch"
    using velocity_clamp_check [OF ok, of "PyTuple [1, 1, 1]"] by simp
  have 3: "construct_optimizer 5 2 fixture_options (Some (PyTuple [3, 2])) = Inl InvalidParameter"
    using velocity_clamp_check [OF ok, of "PyTuple [3, 2]"] by simp
  have 4: "\<exists>inst'. construct_optimizer 5 2 fixture_options (Some (PyTuple [1, 3])) = Inr inst'"
    using velocity_clamp_check [OF ok, of "PyTuple [1, 3]"] by simp
  from 1 2 3 4 show ?thesis by simp
qed

end
